theory Spec2Isabelle
  imports Main "HOL-Library.Word"
begin

section \<open>Package customer: the in-memory customer directory\<close>

text \<open>
  Go's \<^verbatim>\<open>int\<close> is 64 bits wide on the platforms the worker runs on; it is modelled as
  \<open>64 word\<close>, read as two's complement with \<open>sint\<close>, so that \<open>+\<close> wraps around as Go's
  does. A \<^verbatim>\<open>time.Time\<close> is modelled as an instant on an integer time line, \<open>0\<close> standing
  for the zero time. An \<^verbatim>\<open>error\<close> value is the message it carries; the \<^verbatim>\<open>nil\<close> error is
  \<open>None\<close> of \<open>error option\<close>.
\<close>

type_synonym go_int = "64 word"

datatype error = Error string

record Customer =
  Name :: string
  LastVisit :: int
  TimesVisited :: go_int
  Age :: go_int

text \<open>The zero value \<^verbatim>\<open>Customer{}\<close>.\<close>

definition Customer_zero :: Customer where
  "Customer_zero = \<lparr>Name = [], LastVisit = 0, TimesVisited = 0, Age = 0\<rparr>"

text \<open>
  \<^verbatim>\<open>MemoryCustomers\<close> holds one Go map. A Go map variable is either \<^verbatim>\<open>nil\<close> (\<open>None\<close>) or a
  map (\<open>Some m\<close>); reading a \<^verbatim>\<open>nil\<close> map finds no key.
\<close>

record MemoryCustomers =
  Customers :: "(string \<rightharpoonup> Customer) option"

definition NewMemoryCustomers :: MemoryCustomers where
  "NewMemoryCustomers = \<lparr>Customers = Some Map.empty\<rparr>"

text \<open>The comma-ok read \<^verbatim>\<open>mc.Customers[name]\<close>, which is what a caller can observe of the store.\<close>

definition index :: "MemoryCustomers \<Rightarrow> string \<Rightarrow> Customer option" where
  "index mc name = (case Customers mc of None \<Rightarrow> None | Some m \<Rightarrow> m name)"

text \<open>
  \<^verbatim>\<open>func (mc *MemoryCustomers) Get(name string) (Customer, error)\<close>: the receiver is a pointer,
  so the store after the call is returned together with the result.
\<close>

definition Get :: "MemoryCustomers \<Rightarrow> string \<Rightarrow> MemoryCustomers \<times> Customer \<times> error option" where
  "Get mc name =
     (let mc1 = (if Customers mc = None then mc\<lparr>Customers := Some Map.empty\<rparr> else mc)
      in case index mc1 name of
           Some cust \<Rightarrow> (mc1, cust, None)
         | None \<Rightarrow> (mc1, Customer_zero, Some (Error (''no such customer: '' @ name))))"

text \<open>\<^verbatim>\<open>func (mc *MemoryCustomers) Update(customer Customer) error\<close>.\<close>

definition Update :: "MemoryCustomers \<Rightarrow> Customer \<Rightarrow> MemoryCustomers \<times> error option" where
  "Update mc customer =
     (let m = (case Customers mc of None \<Rightarrow> Map.empty | Some m \<Rightarrow> m)
      in (mc\<lparr>Customers := Some (m(Name customer \<mapsto> customer))\<rparr>, None))"

section \<open>The worker's package-level variables\<close>

text \<open>
  \<^verbatim>\<open>customer.Database\<close> and the \<^verbatim>\<open>visitorCount\<close> of package greetings are package-level
  variables of the worker process. Every activity takes them and returns them updated. The
  substrate hands arguments and results between workflows and activities unchanged.
\<close>

record world =
  Database :: MemoryCustomers
  visitorCount :: go_int

section \<open>Package orders: the validation pipeline\<close>

record Order =
  Item :: string
  Price :: "32 word"
  By :: string

definition activitiyFindCustomerByName ::
  "world \<Rightarrow> string \<Rightarrow> world \<times> Customer \<times> error option" where
  "activitiyFindCustomerByName w name =
     (case Get (Database w) name of (db, res) \<Rightarrow> (w\<lparr>Database := db\<rparr>, res))"

definition activityIsCustomerLegal ::
  "world \<Rightarrow> Customer \<Rightarrow> world \<times> bool \<times> error option" where
  "activityIsCustomerLegal w visitor =
     (if sint (Age visitor) < 18
      then (w, False, Some (Error ''customer is not old enough, dont serve him''))
      else (w, True, None))"

text \<open>
  \<^verbatim>\<open>workflowProcessOrder\<close>, the sub-task run for one order: the two activities in sequence,
  the first error returned.
\<close>

definition workflowProcessOrder :: "world \<Rightarrow> Order \<Rightarrow> world \<times> error option" where
  "workflowProcessOrder w order =
     (case activitiyFindCustomerByName w (By order) of
        (w1, cust, err) \<Rightarrow>
          if err \<noteq> None then (w1, err)
          else (case activityIsCustomerLegal w1 cust of
                  (w2, allowed, err2) \<Rightarrow>
                    if err2 \<noteq> None then (w2, err2) else (w2, None)))"

section \<open>Package greetings: the greeting pipeline\<close>

text \<open>\<^verbatim>\<open>time.Now()\<close> is the argument \<open>now\<close>.\<close>

definition activityGreetings ::
  "world \<Rightarrow> int \<Rightarrow> Customer \<Rightarrow> world \<times> Customer \<times> error option" where
  "activityGreetings w now visitor =
     (let w1 = w\<lparr>visitorCount := visitorCount w + 1\<rparr>
      in case Get (Database w1) (Name visitor) of
           (db, oldCustomerInfo, _) \<Rightarrow>
             (let visitor1 = visitor\<lparr>LastVisit := now\<rparr>;
                  visitor2 = visitor1\<lparr>TimesVisited := TimesVisited oldCustomerInfo + 1\<rparr>
              in (w1\<lparr>Database := db\<rparr>, visitor2, None)))"

definition activityStoreCustomer :: "world \<Rightarrow> Customer \<Rightarrow> world \<times> error option" where
  "activityStoreCustomer w visitor =
     (case Update (Database w) visitor of
        (db, err) \<Rightarrow> if err \<noteq> None then (w\<lparr>Database := db\<rparr>, err) else (w\<lparr>Database := db\<rparr>, None))"

definition workflowGreetings ::
  "world \<Rightarrow> int \<Rightarrow> Customer \<Rightarrow> world \<times> Customer \<times> error option" where
  "workflowGreetings w now visitor =
     (case activityGreetings w now visitor of
        (w1, visitor1, err) \<Rightarrow>
          if err \<noteq> None then (w1, Customer_zero, err)
          else (case activityStoreCustomer w1 visitor1 of
                  (w2, err2) \<Rightarrow>
                    if err2 \<noteq> None then (w2, Customer_zero, err2) else (w2, visitor1, None)))"





section \<open>Package orders: the orchestrator loop \<^verbatim>\<open>WorkflowOrder\<close>\<close>

text \<open>
  The workflow function runs as one coroutine on the durable-execution substrate. It runs
  until it blocks, in \<^verbatim>\<open>selector.Select\<close> (no branch ready) or in \<^verbatim>\<open>waiter.Get\<close> (the
  child workflow has not closed yet), or until it returns; the substrate wakes it when a
  signal is delivered or a child workflow closes. The state below holds the local variables
  of \<^verbatim>\<open>WorkflowOrder\<close>, what the substrate keeps for it (the buffered signals of channel
  \<^verbatim>\<open>"order"\<close>, the selector's branches, the child workflows started) and the place where the
  coroutine stands.
\<close>

definition MaxSignalsAmount :: go_int where
  "MaxSignalsAmount = 3"

datatype child_status = ChildRunning | ChildClosed "error option"

datatype position =
    Executing
  | Blocked_Select
  | Blocked_Get nat
  | Returned_ContinueAsNew

record orchestrator =
  signalCount :: go_int
  restartWorkflow :: bool
  receiveCases :: nat
  defaultFunc :: bool
  signalChan :: "Order list"
  children :: "(Order \<times> child_status) list"
  logged :: "string list"
  pc :: position

text \<open>
  The receive callback up to its blocking \<^verbatim>\<open>waiter.Get\<close>: the counter is incremented, the
  child workflow is started, and the coroutine waits for it.
\<close>

definition receive_callback :: "Order \<Rightarrow> orchestrator \<Rightarrow> orchestrator" where
  "receive_callback order s =
     s\<lparr>signalCount := signalCount s + 1,
       children := children s @ [(order, ChildRunning)],
       pc := Blocked_Get (length (children s))\<rparr>"

text \<open>
  \<^verbatim>\<open>selector.Select(ctx)\<close>: the receive branches are tried first, in the order they were
  added; the default branch runs only when none of them is ready; without a default the
  coroutine blocks.
\<close>

definition Select :: "orchestrator \<Rightarrow> orchestrator" where
  "Select s =
     (case signalChan s of
        order # rest \<Rightarrow>
          if 0 < receiveCases s then receive_callback order (s\<lparr>signalChan := rest\<rparr>)
          else if defaultFunc s then s\<lparr>restartWorkflow := True, pc := Executing\<rparr>
          else s\<lparr>pc := Blocked_Select\<rparr>
      | [] \<Rightarrow>
          if defaultFunc s then s\<lparr>restartWorkflow := True, pc := Executing\<rparr>
          else s\<lparr>pc := Blocked_Select\<rparr>)"

text \<open>
  The \<^verbatim>\<open>for\<close> loop, from the top of an iteration until the coroutine blocks or returns.
\<close>

function WorkflowOrder_loop :: "orchestrator \<Rightarrow> orchestrator" where
  "WorkflowOrder_loop s =
     (let s1 = s\<lparr>receiveCases := Suc (receiveCases s)\<rparr>;
          s2 = (if word_sle MaxSignalsAmount (signalCount s1) then s1\<lparr>defaultFunc := True\<rparr> else s1);
          s3 = Select s2
      in if pc s3 \<noteq> Executing then s3
         else if restartWorkflow s3 then s3\<lparr>pc := Returned_ContinueAsNew\<rparr>
         else WorkflowOrder_loop s3)"
  by pat_completeness auto
termination
  by (relation "{}") (auto simp: Select_def receive_callback_def split: list.splits if_splits)

text \<open>The local variables at the entry of \<^verbatim>\<open>WorkflowOrder\<close>, before the loop.\<close>

definition WorkflowOrder_entry :: "Order list \<Rightarrow> orchestrator" where
  "WorkflowOrder_entry buffered =
     \<lparr>signalCount = 0, restartWorkflow = False, receiveCases = 0, defaultFunc = False,
      signalChan = buffered, children = [], logged = [], pc = Executing\<rparr>"

definition WorkflowOrder :: "Order list \<Rightarrow> orchestrator" where
  "WorkflowOrder buffered = WorkflowOrder_loop (WorkflowOrder_entry buffered)"

text \<open>
  \<^verbatim>\<open>workflow.NewContinueAsNewError(ctx, WorkflowOrder)\<close> passes no argument: the next run
  starts at the entry of \<^verbatim>\<open>WorkflowOrder\<close>, with the signals the substrate holds for it.
\<close>

definition ContinueAsNew :: "orchestrator \<Rightarrow> orchestrator" where
  "ContinueAsNew s = WorkflowOrder_entry (signalChan s)"

text \<open>
  The rest of the receive callback, once \<^verbatim>\<open>waiter.Get\<close> has returned \<open>err\<close>: a failure is
  logged, \<^verbatim>\<open>Select\<close> returns, and the loop goes on.
\<close>

definition resume_callback :: "error option \<Rightarrow> orchestrator \<Rightarrow> orchestrator" where
  "resume_callback err s =
     (let s1 = (if err \<noteq> None then s\<lparr>logged := logged s @ [''Order has failed.'']\<rparr> else s)
      in if restartWorkflow s1 then s1\<lparr>pc := Returned_ContinueAsNew\<rparr>
         else WorkflowOrder_loop s1)"

text \<open>
  What the substrate delivers to a run: an order signal, or the close of the child workflow
  started as number \<open>k\<close> with its result. A signal wakes a coroutine blocked in \<^verbatim>\<open>Select\<close>;
  the close of child \<open>k\<close> wakes a coroutine blocked in that child's \<^verbatim>\<open>Get\<close>. A close for a
  child that is not running is not a delivery the substrate makes and changes nothing.
\<close>

datatype event = Signal Order | ChildClose nat "error option"

fun deliver :: "orchestrator \<Rightarrow> event \<Rightarrow> orchestrator" where
  "deliver s (Signal order) =
     (let s1 = s\<lparr>signalChan := signalChan s @ [order]\<rparr>
      in if pc s1 = Blocked_Select then
           (let s2 = Select s1
            in if pc s2 \<noteq> Executing then s2
               else if restartWorkflow s2 then s2\<lparr>pc := Returned_ContinueAsNew\<rparr>
               else WorkflowOrder_loop s2)
         else s1)"
| "deliver s (ChildClose k err) =
     (if k < length (children s) \<and> snd (children s ! k) = ChildRunning then
        (let s1 = s\<lparr>children := (children s)[k := (fst (children s ! k), ChildClosed err)]\<rparr>
         in if pc s1 = Blocked_Get k then resume_callback err s1 else s1)
      else s)"

text \<open>One run of \<^verbatim>\<open>WorkflowOrder\<close> under a schedule of deliveries.\<close>

definition execution :: "Order list \<Rightarrow> event list \<Rightarrow> orchestrator" where
  "execution buffered evs = foldl deliver (WorkflowOrder buffered) evs"

text \<open>
  What holds of a run whenever its coroutine is blocked or has returned: the counter is the
  number of child workflows started, only the child being waited for is running, and the
  selector has a default exactly from the first iteration that found three or more signals
  counted.
\<close>

definition orchestrator_inv :: "orchestrator \<Rightarrow> bool" where
  "orchestrator_inv s \<longleftrightarrow>
     signalCount s = of_nat (length (children s))
   \<and> pc s \<noteq> Executing
   \<and> 0 < receiveCases s
   \<and> (\<forall>k. pc s = Blocked_Get k \<longrightarrow> Suc k = length (children s))
   \<and> (\<forall>i < length (children s). snd (children s ! i) = ChildRunning \<longleftrightarrow> pc s = Blocked_Get i)
   \<and> (defaultFunc s \<longrightarrow> 3 \<le> length (children s))
   \<and> (defaultFunc s \<and> pc s \<noteq> Returned_ContinueAsNew \<longrightarrow> 3 < length (children s))
   \<and> (3 < length (children s) \<longrightarrow> defaultFunc s)
   \<and> (restartWorkflow s \<longleftrightarrow> pc s = Returned_ContinueAsNew)
   \<and> (pc s = Returned_ContinueAsNew \<longrightarrow> defaultFunc s)
   \<and> (pc s = Blocked_Select \<longrightarrow> length (children s) < 3 \<and> signalChan s = [])"

section \<open>The customer directory\<close>

lemma index_Get: "index (fst (Get mc name)) n = index mc n"
  by (simp add: Get_def index_def Let_def split: option.splits)

lemma Get_result:
  "snd (Get mc name) =
     (case index mc name of
        Some cust \<Rightarrow> (cust, None)
      | None \<Rightarrow> (Customer_zero, Some (Error (''no such customer: '' @ name))))"
  by (simp add: Get_def index_def Let_def split: option.splits)

lemma index_Update:
  "index (fst (Update mc r)) n = (if n = Name r then Some r else index mc n)"
  by (simp add: Update_def index_def Let_def split: option.splits)

text \<open>
  Claim C6. For every store and every name that the store does not hold, \<open>Get\<close> returns the
  zero \<open>Customer\<close> together with the error \<^verbatim>\<open>no such customer: <name>\<close>; for every name it
  holds, \<open>Get\<close> returns the stored record and no error. The lookup activity returns what
  \<open>Get\<close> returns on the worker's store, and an order by a name the store does not hold makes
  \<open>workflowProcessOrder\<close> fail with that error.
\<close>

theorem Get_absent_present:
  "(index mc name = None \<longrightarrow>
      snd (Get mc name) = (Customer_zero, Some (Error (''no such customer: '' @ name))))
   \<and> (index mc name = Some cust \<longrightarrow> snd (Get mc name) = (cust, None))
   \<and> snd (activitiyFindCustomerByName w name) = snd (Get (Database w) name)
   \<and> (index (Database w) (By order) = None \<longrightarrow>
        snd (workflowProcessOrder w order) = Some (Error (''no such customer: '' @ By order)))"
proof -
  have res: "snd (activitiyFindCustomerByName w n) = snd (Get (Database w) n)" for n
    by (simp add: activitiyFindCustomerByName_def split: prod.splits)
  have "snd (workflowProcessOrder w order) = Some (Error (''no such customer: '' @ By order))"
    if "index (Database w) (By order) = None"
  proof -
    have "snd (activitiyFindCustomerByName w (By order)) =
            (Customer_zero, Some (Error (''no such customer: '' @ By order)))"
      using that by (simp add: res Get_result)
    then show ?thesis
      by (cases "activitiyFindCustomerByName w (By order)") (simp add: workflowProcessOrder_def)
  qed
  then show ?thesis
    by (simp add: res Get_result)
qed

theorem Get_absent_present_witness:
  "index \<lparr>Customers = Some [''bob'' \<mapsto> \<lparr>Name = ''bob'', LastVisit = 5, TimesVisited = 2, Age = 30\<rparr>]\<rparr>
      ''eve'' = None
   \<and> snd (Get \<lparr>Customers = Some [''bob'' \<mapsto> \<lparr>Name = ''bob'', LastVisit = 5, TimesVisited = 2, Age = 30\<rparr>]\<rparr>
        ''eve'') = (Customer_zero, Some (Error ''no such customer: eve''))
   \<and> index \<lparr>Customers = Some [''bob'' \<mapsto> \<lparr>Name = ''bob'', LastVisit = 5, TimesVisited = 2, Age = 30\<rparr>]\<rparr>
      ''bob'' = Some \<lparr>Name = ''bob'', LastVisit = 5, TimesVisited = 2, Age = 30\<rparr>
   \<and> snd (Get \<lparr>Customers = Some [''bob'' \<mapsto> \<lparr>Name = ''bob'', LastVisit = 5, TimesVisited = 2, Age = 30\<rparr>]\<rparr>
        ''bob'') = (\<lparr>Name = ''bob'', LastVisit = 5, TimesVisited = 2, Age = 30\<rparr>, None)
   \<and> index (Database \<lparr>Database = NewMemoryCustomers, visitorCount = 0\<rparr>)
        (By \<lparr>Item = ''ale'', Price = 0, By = ''eve''\<rparr>) = None
   \<and> snd (workflowProcessOrder \<lparr>Database = NewMemoryCustomers, visitorCount = 0\<rparr>
        \<lparr>Item = ''ale'', Price = 0, By = ''eve''\<rparr>) = Some (Error ''no such customer: eve'')"
  using Get_absent_present
      [of "\<lparr>Customers = Some [''bob'' \<mapsto> \<lparr>Name = ''bob'', LastVisit = 5, TimesVisited = 2, Age = 30\<rparr>]\<rparr>"
          "''eve''" "\<lparr>Name = ''bob'', LastVisit = 5, TimesVisited = 2, Age = 30\<rparr>"
          "\<lparr>Database = NewMemoryCustomers, visitorCount = 0\<rparr>"
          "\<lparr>Item = ''ale'', Price = 0, By = ''eve''\<rparr>"]
    Get_absent_present
      [of "\<lparr>Customers = Some [''bob'' \<mapsto> \<lparr>Name = ''bob'', LastVisit = 5, TimesVisited = 2, Age = 30\<rparr>]\<rparr>"
          "''bob''" "\<lparr>Name = ''bob'', LastVisit = 5, TimesVisited = 2, Age = 30\<rparr>"
          "\<lparr>Database = NewMemoryCustomers, visitorCount = 0\<rparr>"
          "\<lparr>Item = ''ale'', Price = 0, By = ''eve''\<rparr>"]
  by (simp add: index_def NewMemoryCustomers_def)

text \<open>
  Claim C7. For every store and every record \<open>r\<close>, \<open>Update\<close> returns no error, a \<open>Get\<close> of
  \<open>Name r\<close> right after it returns exactly \<open>r\<close> and no error, and the store afterwards holds
  \<open>r\<close> under \<open>Name r\<close> (inserted when the name was absent, the whole previous record replaced
  when it was present) and what it held before under every other name.
\<close>

theorem Update_then_Get:
  "snd (Update mc r) = None
   \<and> snd (Get (fst (Update mc r)) (Name r)) = (r, None)
   \<and> index (fst (Update mc r)) (Name r) = Some r
   \<and> index (fst (Update mc r)) n = (if n = Name r then Some r else index mc n)"
  by (simp add: Get_result index_Update) (simp add: Update_def)

section \<open>The validation pipeline\<close>

text \<open>
  Claim C5. \<open>activityIsCustomerLegal\<close> returns an error if and only if the customer's age is
  below 18, and the error is then \<^verbatim>\<open>customer is not old enough, dont serve him\<close> with the
  result \<open>False\<close>; for every age of 18 or more it returns \<open>True\<close> and no error. A customer aged
  17 fails and the same customer aged 18 succeeds. So does the order: \<open>workflowProcessOrder\<close>
  on an order by a customer the store holds returns that error when the stored age is below
  18, at 17 in particular, and no error when it is 18 or more, at 18 in particular; and it
  returns that error only for a stored customer below 18.
\<close>

theorem activityIsCustomerLegal_age:
  "(snd (snd (activityIsCustomerLegal w visitor)) \<noteq> None \<longleftrightarrow> sint (Age visitor) < 18)
   \<and> (sint (Age visitor) < 18 \<longrightarrow>
        snd (activityIsCustomerLegal w visitor) =
          (False, Some (Error ''customer is not old enough, dont serve him'')))
   \<and> (18 \<le> sint (Age visitor) \<longrightarrow> snd (activityIsCustomerLegal w visitor) = (True, None))
   \<and> snd (activityIsCustomerLegal w (visitor\<lparr>Age := 17\<rparr>)) =
          (False, Some (Error ''customer is not old enough, dont serve him''))
   \<and> snd (activityIsCustomerLegal w (visitor\<lparr>Age := 18\<rparr>)) = (True, None)
   \<and> (index (Database w) (By order) = Some cust \<and> sint (Age cust) < 18 \<longrightarrow>
        snd (workflowProcessOrder w order) =
          Some (Error ''customer is not old enough, dont serve him''))
   \<and> (index (Database w) (By order) = Some cust \<and> 18 \<le> sint (Age cust) \<longrightarrow>
        snd (workflowProcessOrder w order) = None)
   \<and> (index (Database w) (By order) = Some (cust\<lparr>Age := 17\<rparr>) \<longrightarrow>
        snd (workflowProcessOrder w order) =
          Some (Error ''customer is not old enough, dont serve him''))
   \<and> (index (Database w) (By order) = Some (cust\<lparr>Age := 18\<rparr>) \<longrightarrow>
        snd (workflowProcessOrder w order) = None)
   \<and> (snd (workflowProcessOrder w order) =
          Some (Error ''customer is not old enough, dont serve him'') \<longleftrightarrow>
        (\<exists>c. index (Database w) (By order) = Some c \<and> sint (Age c) < 18))"
proof -
  have res: "snd (activitiyFindCustomerByName w n) = snd (Get (Database w) n)" for n
    by (simp add: activitiyFindCustomerByName_def split: prod.splits)
  have found: "snd (workflowProcessOrder w order) =
      (if sint (Age c) < 18 then Some (Error ''customer is not old enough, dont serve him'')
       else None)"
    if "index (Database w) (By order) = Some c" for c
  proof -
    have "snd (activitiyFindCustomerByName w (By order)) = (c, None)"
      using that by (simp add: res Get_result)
    then show ?thesis
      by (cases "activitiyFindCustomerByName w (By order)")
         (simp add: workflowProcessOrder_def activityIsCustomerLegal_def)
  qed
  have absent: "snd (workflowProcessOrder w order) = Some (Error (''no such customer: '' @ By order))"
    if "index (Database w) (By order) = None"
  proof -
    have "snd (activitiyFindCustomerByName w (By order)) =
            (Customer_zero, Some (Error (''no such customer: '' @ By order)))"
      using that by (simp add: res Get_result)
    then show ?thesis
      by (cases "activitiyFindCustomerByName w (By order)") (simp add: workflowProcessOrder_def)
  qed
  have only: "snd (workflowProcessOrder w order) =
          Some (Error ''customer is not old enough, dont serve him'') \<longleftrightarrow>
        (\<exists>c. index (Database w) (By order) = Some c \<and> sint (Age c) < 18)"
  proof (cases "index (Database w) (By order)")
    case None
    then show ?thesis by (simp add: absent)
  next
    case (Some c)
    then show ?thesis by (simp add: found)
  qed
  have act: "(snd (snd (activityIsCustomerLegal w visitor)) \<noteq> None \<longleftrightarrow> sint (Age visitor) < 18)
   \<and> (sint (Age visitor) < 18 \<longrightarrow>
        snd (activityIsCustomerLegal w visitor) =
          (False, Some (Error ''customer is not old enough, dont serve him'')))
   \<and> (18 \<le> sint (Age visitor) \<longrightarrow> snd (activityIsCustomerLegal w visitor) = (True, None))
   \<and> snd (activityIsCustomerLegal w (visitor\<lparr>Age := 17\<rparr>)) =
          (False, Some (Error ''customer is not old enough, dont serve him''))
   \<and> snd (activityIsCustomerLegal w (visitor\<lparr>Age := 18\<rparr>)) = (True, None)"
    by (simp add: activityIsCustomerLegal_def)
  have orders: "(index (Database w) (By order) = Some cust \<and> sint (Age cust) < 18 \<longrightarrow>
        snd (workflowProcessOrder w order) =
          Some (Error ''customer is not old enough, dont serve him''))
   \<and> (index (Database w) (By order) = Some cust \<and> 18 \<le> sint (Age cust) \<longrightarrow>
        snd (workflowProcessOrder w order) = None)
   \<and> (index (Database w) (By order) = Some (cust\<lparr>Age := 17\<rparr>) \<longrightarrow>
        snd (workflowProcessOrder w order) =
          Some (Error ''customer is not old enough, dont serve him''))
   \<and> (index (Database w) (By order) = Some (cust\<lparr>Age := 18\<rparr>) \<longrightarrow>
        snd (workflowProcessOrder w order) = None)"
    by (auto simp: found)
  from act orders only show ?thesis by blast
qed

theorem activityIsCustomerLegal_age_witness:
  "sint (Age \<lparr>Name = ''bob'', LastVisit = 0, TimesVisited = 0, Age = 16\<rparr>) < 18
   \<and> snd (activityIsCustomerLegal \<lparr>Database = NewMemoryCustomers, visitorCount = 0\<rparr>
        \<lparr>Name = ''bob'', LastVisit = 0, TimesVisited = 0, Age = 16\<rparr>) =
          (False, Some (Error ''customer is not old enough, dont serve him''))
   \<and> 18 \<le> sint (Age \<lparr>Name = ''bob'', LastVisit = 0, TimesVisited = 0, Age = 30\<rparr>)
   \<and> snd (activityIsCustomerLegal \<lparr>Database = NewMemoryCustomers, visitorCount = 0\<rparr>
        \<lparr>Name = ''bob'', LastVisit = 0, TimesVisited = 0, Age = 30\<rparr>) = (True, None)
   \<and> index (Database \<lparr>Database = \<lparr>Customers = Some [''kid'' \<mapsto>
          \<lparr>Name = ''kid'', LastVisit = 5, TimesVisited = 1, Age = 17\<rparr>]\<rparr>, visitorCount = 1\<rparr>)
        (By \<lparr>Item = ''ale'', Price = 0, By = ''kid''\<rparr>) =
      Some (\<lparr>Name = ''kid'', LastVisit = 5, TimesVisited = 1, Age = 40\<rparr>\<lparr>Age := 17\<rparr>)
   \<and> snd (workflowProcessOrder \<lparr>Database = \<lparr>Customers = Some [''kid'' \<mapsto>
          \<lparr>Name = ''kid'', LastVisit = 5, TimesVisited = 1, Age = 17\<rparr>]\<rparr>, visitorCount = 1\<rparr>
        \<lparr>Item = ''ale'', Price = 0, By = ''kid''\<rparr>) =
      Some (Error ''customer is not old enough, dont serve him'')
   \<and> index (Database \<lparr>Database = \<lparr>Customers = Some [''kid'' \<mapsto>
          \<lparr>Name = ''kid'', LastVisit = 5, TimesVisited = 1, Age = 18\<rparr>]\<rparr>, visitorCount = 1\<rparr>)
        (By \<lparr>Item = ''ale'', Price = 0, By = ''kid''\<rparr>) =
      Some (\<lparr>Name = ''kid'', LastVisit = 5, TimesVisited = 1, Age = 40\<rparr>\<lparr>Age := 18\<rparr>)
   \<and> snd (workflowProcessOrder \<lparr>Database = \<lparr>Customers = Some [''kid'' \<mapsto>
          \<lparr>Name = ''kid'', LastVisit = 5, TimesVisited = 1, Age = 18\<rparr>]\<rparr>, visitorCount = 1\<rparr>
        \<lparr>Item = ''ale'', Price = 0, By = ''kid''\<rparr>) = None"
  using activityIsCustomerLegal_age
          [of "\<lparr>Database = NewMemoryCustomers, visitorCount = 0\<rparr>"
              "\<lparr>Name = ''bob'', LastVisit = 0, TimesVisited = 0, Age = 16\<rparr>"
              "\<lparr>Item = ''ale'', Price = 0, By = ''kid''\<rparr>"
              "\<lparr>Name = ''kid'', LastVisit = 5, TimesVisited = 1, Age = 40\<rparr>"]
        activityIsCustomerLegal_age
          [of "\<lparr>Database = NewMemoryCustomers, visitorCount = 0\<rparr>"
              "\<lparr>Name = ''bob'', LastVisit = 0, TimesVisited = 0, Age = 30\<rparr>"
              "\<lparr>Item = ''ale'', Price = 0, By = ''kid''\<rparr>"
              "\<lparr>Name = ''kid'', LastVisit = 5, TimesVisited = 1, Age = 40\<rparr>"]
        activityIsCustomerLegal_age
          [of "\<lparr>Database = \<lparr>Customers = Some [''kid'' \<mapsto>
                \<lparr>Name = ''kid'', LastVisit = 5, TimesVisited = 1, Age = 17\<rparr>]\<rparr>, visitorCount = 1\<rparr>"
              "\<lparr>Name = ''bob'', LastVisit = 0, TimesVisited = 0, Age = 16\<rparr>"
              "\<lparr>Item = ''ale'', Price = 0, By = ''kid''\<rparr>"
              "\<lparr>Name = ''kid'', LastVisit = 5, TimesVisited = 1, Age = 40\<rparr>"]
        activityIsCustomerLegal_age
          [of "\<lparr>Database = \<lparr>Customers = Some [''kid'' \<mapsto>
                \<lparr>Name = ''kid'', LastVisit = 5, TimesVisited = 1, Age = 18\<rparr>]\<rparr>, visitorCount = 1\<rparr>"
              "\<lparr>Name = ''bob'', LastVisit = 0, TimesVisited = 0, Age = 16\<rparr>"
              "\<lparr>Item = ''ale'', Price = 0, By = ''kid''\<rparr>"
              "\<lparr>Name = ''kid'', LastVisit = 5, TimesVisited = 1, Age = 40\<rparr>"]
  by (simp add: index_def)

text \<open>
  Claim C8. The lookup activity, the eligibility activity and the whole of
  \<open>workflowProcessOrder\<close> leave every read of the store as it was, whether they succeed or
  fail: the eligibility activity returns the worker's variables untouched, and the lookup
  changes at most a \<^verbatim>\<open>nil\<close> map into an empty one, so that a store whose map is not \<^verbatim>\<open>nil\<close>
  is returned identical.
\<close>

theorem validation_frame:
  "index (Database (fst (activitiyFindCustomerByName w name))) n = index (Database w) n
   \<and> fst (activityIsCustomerLegal w visitor) = w
   \<and> index (Database (fst (workflowProcessOrder w order))) n = index (Database w) n
   \<and> visitorCount (fst (workflowProcessOrder w order)) = visitorCount w
   \<and> (Customers (Database w) \<noteq> None \<longrightarrow>
        fst (activitiyFindCustomerByName w name) = w \<and> fst (workflowProcessOrder w order) = w)"
  by (auto simp: workflowProcessOrder_def activitiyFindCustomerByName_def activityIsCustomerLegal_def
      Get_def index_def Let_def split: option.splits prod.splits)

theorem validation_frame_witness:
  "Customers (Database \<lparr>Database = \<lparr>Customers = Some [''kid'' \<mapsto>
        \<lparr>Name = ''kid'', LastVisit = 5, TimesVisited = 1, Age = 17\<rparr>]\<rparr>, visitorCount = 1\<rparr>) \<noteq> None
   \<and> snd (workflowProcessOrder \<lparr>Database = \<lparr>Customers = Some [''kid'' \<mapsto>
        \<lparr>Name = ''kid'', LastVisit = 5, TimesVisited = 1, Age = 17\<rparr>]\<rparr>, visitorCount = 1\<rparr>
        \<lparr>Item = ''ale'', Price = 0, By = ''kid''\<rparr>)
      = Some (Error ''customer is not old enough, dont serve him'')
   \<and> fst (workflowProcessOrder \<lparr>Database = \<lparr>Customers = Some [''kid'' \<mapsto>
        \<lparr>Name = ''kid'', LastVisit = 5, TimesVisited = 1, Age = 17\<rparr>]\<rparr>, visitorCount = 1\<rparr>
        \<lparr>Item = ''ale'', Price = 0, By = ''kid''\<rparr>)
      = \<lparr>Database = \<lparr>Customers = Some [''kid'' \<mapsto>
        \<lparr>Name = ''kid'', LastVisit = 5, TimesVisited = 1, Age = 17\<rparr>]\<rparr>, visitorCount = 1\<rparr>"
  using validation_frame
      [of "\<lparr>Database = \<lparr>Customers = Some [''kid'' \<mapsto>
            \<lparr>Name = ''kid'', LastVisit = 5, TimesVisited = 1, Age = 17\<rparr>]\<rparr>, visitorCount = 1\<rparr>"
          "''kid''" "''kid''" "\<lparr>Name = ''kid'', LastVisit = 5, TimesVisited = 1, Age = 17\<rparr>"
          "\<lparr>Item = ''ale'', Price = 0, By = ''kid''\<rparr>"]
  by (simp add: workflowProcessOrder_def activitiyFindCustomerByName_def
      activityIsCustomerLegal_def Get_def index_def)

section \<open>The greeting pipeline\<close>


text \<open>The whole pipeline in one step: what it stores and returns.\<close>

lemma workflowGreetings_result:
  "workflowGreetings w now visitor =
     (let old = (case index (Database w) (Name visitor) of None \<Rightarrow> Customer_zero | Some c \<Rightarrow> c);
          res = visitor\<lparr>LastVisit := now, TimesVisited := TimesVisited old + 1\<rparr>
      in (\<lparr>Database = \<lparr>Customers = Some ((case Customers (Database w) of
                                                None \<Rightarrow> Map.empty | Some m \<Rightarrow> m)(Name visitor \<mapsto> res))\<rparr>,
           visitorCount = visitorCount w + 1\<rparr>, res, None))"
  by (cases w; cases "Database w")
     (auto simp: workflowGreetings_def activityGreetings_def activityStoreCustomer_def Get_def
        Update_def index_def Let_def split: option.splits prod.splits)









text \<open>
  The bound on the stored count is needed in 64-bit arithmetic: from the largest \<^verbatim>\<open>int\<close> the
  sum wraps to the smallest.
\<close>

lemma TimesVisited_wraps:
  "map_option (\<lambda>c. sint (TimesVisited c))
        (index (Database (fst (workflowGreetings
      \<lparr>Database = \<lparr>Customers = Some [''bob'' \<mapsto>
          \<lparr>Name = ''bob'', LastVisit = 5, TimesVisited = 9223372036854775807, Age = 30\<rparr>]\<rparr>,
        visitorCount = 0\<rparr>
      9 \<lparr>Name = ''bob'', LastVisit = 0, TimesVisited = 0, Age = 30\<rparr>))) ''bob'')
      = Some (- 9223372036854775808)"
  by (simp add: workflowGreetings_result Let_def index_def)

text \<open>
  Claim C10. For every store and any two inputs of \<open>workflowGreetings\<close> with the same name,
  whatever their \<open>TimesVisited\<close>, \<open>LastVisit\<close> and the times of the two runs, the records
  returned and the records stored carry the same visit count: it is computed from the
  store's record for that name alone.
\<close>

theorem workflowGreetings_ignores_input_count:
  assumes "Name v1 = Name v2"
  shows "TimesVisited (fst (snd (workflowGreetings w now1 v1))) =
           TimesVisited (fst (snd (workflowGreetings w now2 v2)))
     \<and> map_option TimesVisited (index (Database (fst (workflowGreetings w now1 v1))) (Name v1)) =
         map_option TimesVisited (index (Database (fst (workflowGreetings w now2 v2))) (Name v2))
     \<and> TimesVisited (fst (snd (workflowGreetings w now1 v1))) =
         (case index (Database w) (Name v1) of None \<Rightarrow> 0 | Some c \<Rightarrow> TimesVisited c) + 1"
  using assms
  by (auto simp: workflowGreetings_result Let_def index_def Customer_zero_def split: option.splits)

theorem workflowGreetings_ignores_input_count_witness:
  "Name \<lparr>Name = ''bob'', LastVisit = 0, TimesVisited = 0, Age = 30\<rparr> =
     Name \<lparr>Name = ''bob'', LastVisit = 77, TimesVisited = 1000, Age = 30\<rparr>
   \<and> TimesVisited (fst (snd (workflowGreetings
        \<lparr>Database = \<lparr>Customers = Some [''bob'' \<mapsto>
            \<lparr>Name = ''bob'', LastVisit = 5, TimesVisited = 2, Age = 30\<rparr>]\<rparr>, visitorCount = 2\<rparr>
        9 \<lparr>Name = ''bob'', LastVisit = 0, TimesVisited = 0, Age = 30\<rparr>))) = 3
   \<and> TimesVisited (fst (snd (workflowGreetings
        \<lparr>Database = \<lparr>Customers = Some [''bob'' \<mapsto>
            \<lparr>Name = ''bob'', LastVisit = 5, TimesVisited = 2, Age = 30\<rparr>]\<rparr>, visitorCount = 2\<rparr>
        12 \<lparr>Name = ''bob'', LastVisit = 77, TimesVisited = 1000, Age = 30\<rparr>))) = 3"
  using workflowGreetings_ignores_input_count
      [of "\<lparr>Name = ''bob'', LastVisit = 0, TimesVisited = 0, Age = 30\<rparr>"
          "\<lparr>Name = ''bob'', LastVisit = 77, TimesVisited = 1000, Age = 30\<rparr>"
          "\<lparr>Database = \<lparr>Customers = Some [''bob'' \<mapsto>
            \<lparr>Name = ''bob'', LastVisit = 5, TimesVisited = 2, Age = 30\<rparr>]\<rparr>, visitorCount = 2\<rparr>"
          9 12]
  by (simp add: workflowGreetings_result Let_def index_def)

section \<open>The orchestrator loop\<close>

text \<open>
  An iteration never comes back to the top of the loop without blocking: \<^verbatim>\<open>Select\<close> returns
  only through the default branch, which sets \<open>restartWorkflow\<close>.
\<close>

lemma Select_Executing: "pc (Select s) = Executing \<Longrightarrow> restartWorkflow (Select s)"
  by (auto simp: Select_def receive_callback_def split: list.splits if_splits)

lemma WorkflowOrder_loop_once:
  "WorkflowOrder_loop s =
     (let s1 = s\<lparr>receiveCases := Suc (receiveCases s)\<rparr>;
          s2 = (if word_sle MaxSignalsAmount (signalCount s1) then s1\<lparr>defaultFunc := True\<rparr> else s1);
          s3 = Select s2
      in if pc s3 \<noteq> Executing then s3 else s3\<lparr>pc := Returned_ContinueAsNew\<rparr>)"
  by (subst WorkflowOrder_loop.simps) (simp add: Let_def Select_Executing)

declare WorkflowOrder_loop.simps [simp del]

lemmas run_simps = execution_def WorkflowOrder_def WorkflowOrder_entry_def WorkflowOrder_loop_once
  Select_def receive_callback_def resume_callback_def Let_def MaxSignalsAmount_def word_sle_eq

lemma threshold_iff: "n \<le> 3 \<Longrightarrow> word_sle MaxSignalsAmount (of_nat n) \<longleftrightarrow> n = 3"
proof -
  assume "n \<le> 3"
  then consider "n = 0" | "n = 1" | "n = 2" | "n = 3" by linarith
  then show ?thesis
    by cases (simp_all add: MaxSignalsAmount_def word_sle_eq)
qed

text \<open>The three ways an iteration ends.\<close>

lemma loop_receive:
  "signalChan s = order # rest \<Longrightarrow>
   WorkflowOrder_loop s =
     s\<lparr>receiveCases := Suc (receiveCases s),
       defaultFunc := (defaultFunc s \<or> word_sle MaxSignalsAmount (signalCount s)),
       signalChan := rest,
       signalCount := signalCount s + 1,
       children := children s @ [(order, ChildRunning)],
       pc := Blocked_Get (length (children s))\<rparr>"
  by (simp add: WorkflowOrder_loop_once Select_def receive_callback_def Let_def)

lemma loop_default:
  "signalChan s = [] \<Longrightarrow> defaultFunc s \<or> word_sle MaxSignalsAmount (signalCount s) \<Longrightarrow>
   WorkflowOrder_loop s =
     s\<lparr>receiveCases := Suc (receiveCases s), defaultFunc := True,
       restartWorkflow := True, pc := Returned_ContinueAsNew\<rparr>"
  by (auto simp add: WorkflowOrder_loop_once Select_def receive_callback_def Let_def)

lemma loop_block:
  "signalChan s = [] \<Longrightarrow> \<not> (defaultFunc s \<or> word_sle MaxSignalsAmount (signalCount s)) \<Longrightarrow>
   WorkflowOrder_loop s = s\<lparr>receiveCases := Suc (receiveCases s), pc := Blocked_Select\<rparr>"
  by (simp add: WorkflowOrder_loop_once Select_def receive_callback_def Let_def)

lemma armed_iff:
  assumes "signalCount s = of_nat (length (children s))"
    and "defaultFunc s \<longrightarrow> 3 \<le> length (children s)"
    and "3 < length (children s) \<longrightarrow> defaultFunc s"
  shows "defaultFunc s \<or> word_sle MaxSignalsAmount (signalCount s) \<longleftrightarrow> 3 \<le> length (children s)"
proof (cases "length (children s) \<le> 3")
  case True
  then show ?thesis using assms threshold_iff [OF True] by auto
next
  case False
  then show ?thesis using assms by auto
qed

lemma inv_loop:
  assumes "signalCount s = of_nat (length (children s))"
    and "\<forall>i < length (children s). snd (children s ! i) \<noteq> ChildRunning"
    and "defaultFunc s \<longrightarrow> 3 \<le> length (children s)"
    and "3 < length (children s) \<longrightarrow> defaultFunc s"
    and "\<not> restartWorkflow s"
  shows "orchestrator_inv (WorkflowOrder_loop s)"
proof -
  note armed = armed_iff [OF assms(1) assms(3) assms(4)]
  show ?thesis
  proof (cases "signalChan s")
    case (Cons order rest)
    show ?thesis
      unfolding loop_receive [OF Cons] armed
      using assms(1,2,5) by (auto simp: orchestrator_inv_def nth_append)
  next
    case Nil
    show ?thesis
    proof (cases "3 \<le> length (children s)")
      case True
      with armed have a: "defaultFunc s \<or> word_sle MaxSignalsAmount (signalCount s)" by simp
      show ?thesis
        unfolding loop_default [OF Nil a]
        using assms(1,2,5) True by (auto simp: orchestrator_inv_def)
    next
      case False
      with armed have a: "\<not> (defaultFunc s \<or> word_sle MaxSignalsAmount (signalCount s))" by simp
      show ?thesis
        unfolding loop_block [OF Nil a]
        using assms False Nil by (auto simp: orchestrator_inv_def)
    qed
  qed
qed

lemma inv_WorkflowOrder: "orchestrator_inv (WorkflowOrder buffered)"
  unfolding WorkflowOrder_def
  by (rule inv_loop) (simp_all add: WorkflowOrder_entry_def)

lemma inv_deliver_Signal:
  assumes "orchestrator_inv s"
  shows "orchestrator_inv (deliver s (Signal order))"
proof (cases "pc s = Blocked_Select")
  case True
  with assms have "signalChan s = []" "0 < receiveCases s"
    by (simp_all add: orchestrator_inv_def)
  with True have "deliver s (Signal order) = receive_callback order (s\<lparr>signalChan := []\<rparr>)"
    by (simp add: Select_def receive_callback_def)
  with assms True show ?thesis
    by (auto simp: orchestrator_inv_def receive_callback_def nth_append)
next
  case False
  with assms show ?thesis
    by (auto simp: orchestrator_inv_def)
qed

text \<open>The close of the child being waited for starts the next iteration.\<close>

lemma deliver_ChildClose_waited:
  assumes "orchestrator_inv s" and "pc s = Blocked_Get k"
  shows "deliver s (ChildClose k err) =
    WorkflowOrder_loop
      (if err \<noteq> None
       then s\<lparr>children := (children s)[k := (fst (children s ! k), ChildClosed err)],
              logged := logged s @ [''Order has failed.'']\<rparr>
       else s\<lparr>children := (children s)[k := (fst (children s ! k), ChildClosed err)]\<rparr>)"
proof -
  have "k < length (children s)" "snd (children s ! k) = ChildRunning" "\<not> restartWorkflow s"
    using assms by (auto simp: orchestrator_inv_def)
  with assms(2) show ?thesis
    by (simp add: resume_callback_def Let_def)
qed

lemma inv_deliver_ChildClose:
  assumes "orchestrator_inv s"
  shows "orchestrator_inv (deliver s (ChildClose k err))"
proof (cases "k < length (children s) \<and> snd (children s ! k) = ChildRunning")
  case False
  with assms show ?thesis by auto
next
  case True
  with assms have at: "pc s = Blocked_Get k"
    by (auto simp: orchestrator_inv_def)
  define s2 where "s2 =
      (if err \<noteq> None
       then s\<lparr>children := (children s)[k := (fst (children s ! k), ChildClosed err)],
              logged := logged s @ [''Order has failed.'']\<rparr>
       else s\<lparr>children := (children s)[k := (fst (children s ! k), ChildClosed err)]\<rparr>)"
  have "orchestrator_inv (WorkflowOrder_loop s2)"
  proof (rule inv_loop)
    show "signalCount s2 = of_nat (length (children s2))"
      using assms by (simp add: s2_def orchestrator_inv_def)
    show "\<forall>i<length (children s2). snd (children s2 ! i) \<noteq> ChildRunning"
      using assms at True by (auto simp: s2_def orchestrator_inv_def nth_list_update)
    show "defaultFunc s2 \<longrightarrow> 3 \<le> length (children s2)"
      using assms by (simp add: s2_def orchestrator_inv_def)
    show "3 < length (children s2) \<longrightarrow> defaultFunc s2"
      using assms by (simp add: s2_def orchestrator_inv_def)
    show "\<not> restartWorkflow s2"
      using assms at by (simp add: s2_def orchestrator_inv_def)
  qed
  then show ?thesis
    unfolding deliver_ChildClose_waited [OF assms at] s2_def .
qed

lemma inv_deliver: "orchestrator_inv s \<Longrightarrow> orchestrator_inv (deliver s e)"
  by (cases e) (simp_all only: inv_deliver_Signal inv_deliver_ChildClose)

lemma inv_foldl: "orchestrator_inv s \<Longrightarrow> orchestrator_inv (foldl deliver s evs)"
  by (induction evs arbitrary: s) (simp_all add: inv_deliver)

lemma inv_execution: "orchestrator_inv (execution buffered evs)"
  unfolding execution_def by (rule inv_foldl) (rule inv_WorkflowOrder)

text \<open>
  Claim C4. In every run of \<open>WorkflowOrder\<close>, under every schedule of deliveries, once the
  run has returned the ContinueAsNew error every child workflow it started has closed, with
  or without an error: none is still running.
\<close>

theorem WorkflowOrder_restart_after_children:
  "pc (execution buffered evs) = Returned_ContinueAsNew \<Longrightarrow>
   \<forall>c \<in> set (children (execution buffered evs)). \<exists>err. snd c = ChildClosed err"
proof
  fix c
  assume ret: "pc (execution buffered evs) = Returned_ContinueAsNew"
    and "c \<in> set (children (execution buffered evs))"
  then obtain i where i: "i < length (children (execution buffered evs))"
    and c: "c = children (execution buffered evs) ! i"
    by (auto simp: in_set_conv_nth)
  have "snd c \<noteq> ChildRunning"
    using inv_execution [of buffered evs] ret i c by (auto simp: orchestrator_inv_def)
  then show "\<exists>err. snd c = ChildClosed err"
    by (cases "snd c") simp_all
qed

theorem WorkflowOrder_restart_after_children_witness:
  "pc (execution []
      [Signal \<lparr>Item = ''ale'', Price = 0, By = ''bob''\<rparr>, ChildClose 0 None,
       Signal \<lparr>Item = ''rum'', Price = 0, By = ''eve''\<rparr>,
       ChildClose 1 (Some (Error ''no such customer: eve'')),
       Signal \<lparr>Item = ''mead'', Price = 0, By = ''bob''\<rparr>, ChildClose 2 None])
     = Returned_ContinueAsNew
   \<and> map snd (children (execution []
      [Signal \<lparr>Item = ''ale'', Price = 0, By = ''bob''\<rparr>, ChildClose 0 None,
       Signal \<lparr>Item = ''rum'', Price = 0, By = ''eve''\<rparr>,
       ChildClose 1 (Some (Error ''no such customer: eve'')),
       Signal \<lparr>Item = ''mead'', Price = 0, By = ''bob''\<rparr>, ChildClose 2 None]))
     = [ChildClosed None, ChildClosed (Some (Error ''no such customer: eve'')), ChildClosed None]"
  using WorkflowOrder_restart_after_children
      [of "[]" "[Signal \<lparr>Item = ''ale'', Price = 0, By = ''bob''\<rparr>, ChildClose 0 None,
       Signal \<lparr>Item = ''rum'', Price = 0, By = ''eve''\<rparr>,
       ChildClose 1 (Some (Error ''no such customer: eve'')),
       Signal \<lparr>Item = ''mead'', Price = 0, By = ''bob''\<rparr>, ChildClose 2 None]"]
  by (simp add: run_simps)

text \<open>
  Claim C3, as amended. The loop waits in \<^verbatim>\<open>waiter.Get\<close> for each child workflow it starts.
  In every run, under every schedule, while a child workflow is running the coroutine is
  blocked in that child's \<^verbatim>\<open>Get\<close> and no other child is running; a signal delivered then
  is only appended to the channel's buffer, the counter and the children unchanged; and the
  first buffered signal is received, and its child started, when the running child closes.
\<close>

theorem WorkflowOrder_blocks_on_child:
  assumes "k < length (children (execution buffered evs))"
    and "snd (children (execution buffered evs) ! k) = ChildRunning"
  shows "pc (execution buffered evs) = Blocked_Get k
    \<and> (\<forall>i < length (children (execution buffered evs)). i \<noteq> k \<longrightarrow>
          snd (children (execution buffered evs) ! i) \<noteq> ChildRunning)
    \<and> deliver (execution buffered evs) (Signal order) =
        (execution buffered evs)\<lparr>signalChan := signalChan (execution buffered evs) @ [order]\<rparr>
    \<and> children (deliver (deliver (execution buffered evs) (Signal order)) (ChildClose k err)) =
        (children (execution buffered evs))
          [k := (fst (children (execution buffered evs) ! k), ChildClosed err)]
          @ [(hd (signalChan (execution buffered evs) @ [order]), ChildRunning)]"
proof -
  define s where "s = execution buffered evs"
  have inv: "orchestrator_inv s" unfolding s_def by (rule inv_execution)
  have k: "k < length (children s)" "snd (children s ! k) = ChildRunning"
    using assms by (simp_all add: s_def)
  have at: "pc s = Blocked_Get k"
    using inv k by (auto simp: orchestrator_inv_def)
  have others: "\<forall>i < length (children s). i \<noteq> k \<longrightarrow> snd (children s ! i) \<noteq> ChildRunning"
    using inv at by (auto simp: orchestrator_inv_def)
  have sig: "deliver s (Signal order) = s\<lparr>signalChan := signalChan s @ [order]\<rparr>"
    using at by simp
  have nr: "\<not> restartWorkflow s"
    using inv at by (simp add: orchestrator_inv_def)
  obtain x rest where ch: "signalChan s @ [order] = x # rest"
    by (cases "signalChan s @ [order]") simp_all
  have "children (deliver (s\<lparr>signalChan := signalChan s @ [order]\<rparr>) (ChildClose k err)) =
        (children s)[k := (fst (children s ! k), ChildClosed err)] @ [(x, ChildRunning)]"
    using k at nr ch by (simp add: resume_callback_def loop_receive Let_def)
  with at others sig ch show ?thesis
    unfolding s_def [symmetric] by simp
qed

theorem WorkflowOrder_blocks_on_child_witness:
  "0 < length (children (execution [] [Signal \<lparr>Item = ''ale'', Price = 0, By = ''bob''\<rparr>]))
   \<and> snd (children (execution [] [Signal \<lparr>Item = ''ale'', Price = 0, By = ''bob''\<rparr>]) ! 0)
       = ChildRunning
   \<and> pc (execution [] [Signal \<lparr>Item = ''ale'', Price = 0, By = ''bob''\<rparr>]) = Blocked_Get 0
   \<and> signalChan (deliver (execution [] [Signal \<lparr>Item = ''ale'', Price = 0, By = ''bob''\<rparr>])
        (Signal \<lparr>Item = ''mead'', Price = 0, By = ''bob''\<rparr>))
       = [\<lparr>Item = ''mead'', Price = 0, By = ''bob''\<rparr>]
   \<and> children (deliver (deliver (execution [] [Signal \<lparr>Item = ''ale'', Price = 0, By = ''bob''\<rparr>])
        (Signal \<lparr>Item = ''mead'', Price = 0, By = ''bob''\<rparr>)) (ChildClose 0 None))
       = [(\<lparr>Item = ''ale'', Price = 0, By = ''bob''\<rparr>, ChildClosed None),
          (\<lparr>Item = ''mead'', Price = 0, By = ''bob''\<rparr>, ChildRunning)]"
  using WorkflowOrder_blocks_on_child
      [of 0 "[]" "[Signal \<lparr>Item = ''ale'', Price = 0, By = ''bob''\<rparr>]"
          "\<lparr>Item = ''mead'', Price = 0, By = ''bob''\<rparr>" None]
  by (simp add: run_simps)

text \<open>
  The claim as first stated fails on the schedule of two signals in a row: after the second
  delivery the first child is still running, one signal has been counted, and the second
  order waits in the channel.
\<close>

theorem WorkflowOrder_second_signal_waits:
  "children (execution [] [Signal \<lparr>Item = ''ale'', Price = 0, By = ''bob''\<rparr>,
                            Signal \<lparr>Item = ''mead'', Price = 0, By = ''bob''\<rparr>])
     = [(\<lparr>Item = ''ale'', Price = 0, By = ''bob''\<rparr>, ChildRunning)]
   \<and> signalCount (execution [] [Signal \<lparr>Item = ''ale'', Price = 0, By = ''bob''\<rparr>,
                            Signal \<lparr>Item = ''mead'', Price = 0, By = ''bob''\<rparr>]) = 1
   \<and> signalChan (execution [] [Signal \<lparr>Item = ''ale'', Price = 0, By = ''bob''\<rparr>,
                            Signal \<lparr>Item = ''mead'', Price = 0, By = ''bob''\<rparr>])
     = [\<lparr>Item = ''mead'', Price = 0, By = ''bob''\<rparr>]
   \<and> pc (execution [] [Signal \<lparr>Item = ''ale'', Price = 0, By = ''bob''\<rparr>,
                            Signal \<lparr>Item = ''mead'', Price = 0, By = ''bob''\<rparr>]) = Blocked_Get 0"
  by (simp add: run_simps)

text \<open>
  Claim C1, as amended. In every run, under every schedule, the counter is the number of
  signals received, each of which started one child. While fewer than three signals
  have been received the selector has no default branch, \<open>restartWorkflow\<close> is false and the
  run has not returned. Once three or more have been received, the run is either waiting
  for the child started last or has returned. The default branch is added at the first
  iteration after the third child has closed, not when the third signal is received. When
  the child being waited for closes with three or more signals received, a \<^verbatim>\<open>Select\<close> that
  finds the channel empty takes the default branch and the run returns the ContinueAsNew
  error, starting no further child; a \<^verbatim>\<open>Select\<close> that finds a signal buffered receives it
  and starts one more child in the same run.
\<close>

theorem WorkflowOrder_threshold:
  assumes "s = execution buffered evs"
  shows "signalCount s = of_nat (length (children s))
    \<and> (length (children s) < 3 \<longrightarrow>
            \<not> defaultFunc s \<and> \<not> restartWorkflow s \<and> pc s \<noteq> Returned_ContinueAsNew)
    \<and> (3 \<le> length (children s) \<longrightarrow>
            pc s = Returned_ContinueAsNew \<or> pc s = Blocked_Get (length (children s) - 1))
    \<and> (length (children s) = 3 \<and> pc s = Blocked_Get k \<longrightarrow> \<not> defaultFunc s)
    \<and> (3 \<le> length (children s) \<and> pc s = Blocked_Get k \<and> signalChan s = [] \<longrightarrow>
            pc (deliver s (ChildClose k err)) = Returned_ContinueAsNew
          \<and> defaultFunc (deliver s (ChildClose k err))
          \<and> length (children (deliver s (ChildClose k err))) = length (children s))
    \<and> (3 \<le> length (children s) \<and> pc s = Blocked_Get k \<and> signalChan s \<noteq> [] \<longrightarrow>
            pc (deliver s (ChildClose k err)) = Blocked_Get (Suc k)
          \<and> defaultFunc (deliver s (ChildClose k err))
          \<and> length (children (deliver s (ChildClose k err))) = Suc (length (children s))
          \<and> signalCount (deliver s (ChildClose k err)) = signalCount s + 1)"
proof -
  have inv: "orchestrator_inv s"
    unfolding assms by (rule inv_execution)
  have below: "length (children s) < 3 \<longrightarrow>
      \<not> defaultFunc s \<and> \<not> restartWorkflow s \<and> pc s \<noteq> Returned_ContinueAsNew"
    using inv by (auto simp: orchestrator_inv_def)
  have reached: "3 \<le> length (children s) \<longrightarrow>
      pc s = Returned_ContinueAsNew \<or> pc s = Blocked_Get (length (children s) - 1)"
    using inv by (cases "pc s") (auto simp: orchestrator_inv_def)
  have closing: "3 \<le> length (children s) \<and> pc s = Blocked_Get k \<longrightarrow>
      (signalChan s = [] \<longrightarrow>
          pc (deliver s (ChildClose k err)) = Returned_ContinueAsNew
        \<and> defaultFunc (deliver s (ChildClose k err))
        \<and> length (children (deliver s (ChildClose k err))) = length (children s))
    \<and> (signalChan s \<noteq> [] \<longrightarrow>
          pc (deliver s (ChildClose k err)) = Blocked_Get (Suc k)
        \<and> defaultFunc (deliver s (ChildClose k err))
        \<and> length (children (deliver s (ChildClose k err))) = Suc (length (children s))
        \<and> signalCount (deliver s (ChildClose k err)) = signalCount s + 1)"
  proof (intro impI, elim conjE)
    assume three: "3 \<le> length (children s)" and at: "pc s = Blocked_Get k"
    define s2 where "s2 =
      (if err \<noteq> None
       then s\<lparr>children := (children s)[k := (fst (children s ! k), ChildClosed err)],
              logged := logged s @ [''Order has failed.'']\<rparr>
       else s\<lparr>children := (children s)[k := (fst (children s ! k), ChildClosed err)]\<rparr>)"
    have d: "deliver s (ChildClose k err) = WorkflowOrder_loop s2"
      unfolding deliver_ChildClose_waited [OF inv at] s2_def ..
    have f: "signalCount s2 = signalCount s" "length (children s2) = length (children s)"
      "defaultFunc s2 = defaultFunc s" "signalChan s2 = signalChan s"
      by (simp_all add: s2_def)
    have last: "Suc k = length (children s)"
      using inv at by (simp add: orchestrator_inv_def)
    have armed: "defaultFunc s2 \<or> word_sle MaxSignalsAmount (signalCount s2)"
      using armed_iff [of s2] inv three by (simp add: f orchestrator_inv_def)
    show "(signalChan s = [] \<longrightarrow>
          pc (deliver s (ChildClose k err)) = Returned_ContinueAsNew
        \<and> defaultFunc (deliver s (ChildClose k err))
        \<and> length (children (deliver s (ChildClose k err))) = length (children s))
      \<and> (signalChan s \<noteq> [] \<longrightarrow>
          pc (deliver s (ChildClose k err)) = Blocked_Get (Suc k)
        \<and> defaultFunc (deliver s (ChildClose k err))
        \<and> length (children (deliver s (ChildClose k err))) = Suc (length (children s))
        \<and> signalCount (deliver s (ChildClose k err)) = signalCount s + 1)"
    proof (cases "signalChan s")
      case Nil
      then have "signalChan s2 = []" by (simp add: f)
      then show ?thesis
        unfolding d loop_default [OF \<open>signalChan s2 = []\<close> armed] using Nil by (simp add: f)
    next
      case (Cons order rest)
      then have "signalChan s2 = order # rest" by (simp add: f)
      then show ?thesis
        unfolding d loop_receive [OF \<open>signalChan s2 = order # rest\<close>]
        using Cons armed last by (simp add: f)
    qed
  qed
  have third: "length (children s) = 3 \<and> pc s = Blocked_Get k \<longrightarrow> \<not> defaultFunc s"
    using inv by (auto simp: orchestrator_inv_def)
  have count: "signalCount s = of_nat (length (children s))"
    using inv by (simp add: orchestrator_inv_def)
  from count below reached third closing show ?thesis by blast
qed

theorem WorkflowOrder_threshold_witness:
  "length (children (execution [] [Signal \<lparr>Item = ''ale'', Price = 0, By = ''bob''\<rparr>])) < 3
   \<and> \<not> defaultFunc (execution [] [Signal \<lparr>Item = ''ale'', Price = 0, By = ''bob''\<rparr>])
   \<and> length (children (execution []
        [Signal \<lparr>Item = ''ale'', Price = 0, By = ''bob''\<rparr>, ChildClose 0 None,
         Signal \<lparr>Item = ''ale'', Price = 0, By = ''bob''\<rparr>, ChildClose 1 None,
         Signal \<lparr>Item = ''ale'', Price = 0, By = ''bob''\<rparr>])) = 3
   \<and> pc (execution []
        [Signal \<lparr>Item = ''ale'', Price = 0, By = ''bob''\<rparr>, ChildClose 0 None,
         Signal \<lparr>Item = ''ale'', Price = 0, By = ''bob''\<rparr>, ChildClose 1 None,
         Signal \<lparr>Item = ''ale'', Price = 0, By = ''bob''\<rparr>]) = Blocked_Get 2
   \<and> signalChan (execution []
        [Signal \<lparr>Item = ''ale'', Price = 0, By = ''bob''\<rparr>, ChildClose 0 None,
         Signal \<lparr>Item = ''ale'', Price = 0, By = ''bob''\<rparr>, ChildClose 1 None,
         Signal \<lparr>Item = ''ale'', Price = 0, By = ''bob''\<rparr>]) = []
   \<and> pc (deliver (execution []
        [Signal \<lparr>Item = ''ale'', Price = 0, By = ''bob''\<rparr>, ChildClose 0 None,
         Signal \<lparr>Item = ''ale'', Price = 0, By = ''bob''\<rparr>, ChildClose 1 None,
         Signal \<lparr>Item = ''ale'', Price = 0, By = ''bob''\<rparr>]) (ChildClose 2 None))
       = Returned_ContinueAsNew
   \<and> signalChan (execution []
        [Signal \<lparr>Item = ''ale'', Price = 0, By = ''bob''\<rparr>, ChildClose 0 None,
         Signal \<lparr>Item = ''ale'', Price = 0, By = ''bob''\<rparr>, ChildClose 1 None,
         Signal \<lparr>Item = ''ale'', Price = 0, By = ''bob''\<rparr>,
         Signal \<lparr>Item = ''mead'', Price = 0, By = ''bob''\<rparr>])
       = [\<lparr>Item = ''mead'', Price = 0, By = ''bob''\<rparr>]
   \<and> pc (deliver (execution []
        [Signal \<lparr>Item = ''ale'', Price = 0, By = ''bob''\<rparr>, ChildClose 0 None,
         Signal \<lparr>Item = ''ale'', Price = 0, By = ''bob''\<rparr>, ChildClose 1 None,
         Signal \<lparr>Item = ''ale'', Price = 0, By = ''bob''\<rparr>,
         Signal \<lparr>Item = ''mead'', Price = 0, By = ''bob''\<rparr>]) (ChildClose 2 None))
       = Blocked_Get 3"
  using WorkflowOrder_threshold
      [OF refl, where buffered = "[]" and k = 2 and err = None
        and evs = "[Signal \<lparr>Item = ''ale'', Price = 0, By = ''bob''\<rparr>]"]
    WorkflowOrder_threshold
      [OF refl, where buffered = "[]" and k = 2 and err = None
        and evs = "[Signal \<lparr>Item = ''ale'', Price = 0, By = ''bob''\<rparr>, ChildClose 0 None,
         Signal \<lparr>Item = ''ale'', Price = 0, By = ''bob''\<rparr>, ChildClose 1 None,
         Signal \<lparr>Item = ''ale'', Price = 0, By = ''bob''\<rparr>]"]
    WorkflowOrder_threshold
      [OF refl, where buffered = "[]" and k = 2 and err = None
        and evs = "[Signal \<lparr>Item = ''ale'', Price = 0, By = ''bob''\<rparr>, ChildClose 0 None,
         Signal \<lparr>Item = ''ale'', Price = 0, By = ''bob''\<rparr>, ChildClose 1 None,
         Signal \<lparr>Item = ''ale'', Price = 0, By = ''bob''\<rparr>,
         Signal \<lparr>Item = ''mead'', Price = 0, By = ''bob''\<rparr>]"]
  by (simp add: run_simps)

text \<open>
  The claim as first stated fails on the schedule where a fourth signal is delivered while
  the third child is running: when the third signal has been received the selector has no
  default branch yet, and when the third child closes the fourth signal is received and a
  fourth child is started in the same run.
\<close>

theorem WorkflowOrder_fourth_child:
  "length (children (execution []
        [Signal \<lparr>Item = ''ale'', Price = 0, By = ''bob''\<rparr>, ChildClose 0 None,
         Signal \<lparr>Item = ''ale'', Price = 0, By = ''bob''\<rparr>, ChildClose 1 None,
         Signal \<lparr>Item = ''ale'', Price = 0, By = ''bob''\<rparr>])) = 3
   \<and> \<not> defaultFunc (execution []
        [Signal \<lparr>Item = ''ale'', Price = 0, By = ''bob''\<rparr>, ChildClose 0 None,
         Signal \<lparr>Item = ''ale'', Price = 0, By = ''bob''\<rparr>, ChildClose 1 None,
         Signal \<lparr>Item = ''ale'', Price = 0, By = ''bob''\<rparr>])
   \<and> children (execution []
        [Signal \<lparr>Item = ''ale'', Price = 0, By = ''bob''\<rparr>, ChildClose 0 None,
         Signal \<lparr>Item = ''ale'', Price = 0, By = ''bob''\<rparr>, ChildClose 1 None,
         Signal \<lparr>Item = ''ale'', Price = 0, By = ''bob''\<rparr>,
         Signal \<lparr>Item = ''mead'', Price = 0, By = ''bob''\<rparr>, ChildClose 2 None])
       = [(\<lparr>Item = ''ale'', Price = 0, By = ''bob''\<rparr>, ChildClosed None),
          (\<lparr>Item = ''ale'', Price = 0, By = ''bob''\<rparr>, ChildClosed None),
          (\<lparr>Item = ''ale'', Price = 0, By = ''bob''\<rparr>, ChildClosed None),
          (\<lparr>Item = ''mead'', Price = 0, By = ''bob''\<rparr>, ChildRunning)]
   \<and> signalCount (execution []
        [Signal \<lparr>Item = ''ale'', Price = 0, By = ''bob''\<rparr>, ChildClose 0 None,
         Signal \<lparr>Item = ''ale'', Price = 0, By = ''bob''\<rparr>, ChildClose 1 None,
         Signal \<lparr>Item = ''ale'', Price = 0, By = ''bob''\<rparr>,
         Signal \<lparr>Item = ''mead'', Price = 0, By = ''bob''\<rparr>, ChildClose 2 None]) = 4
   \<and> pc (execution []
        [Signal \<lparr>Item = ''ale'', Price = 0, By = ''bob''\<rparr>, ChildClose 0 None,
         Signal \<lparr>Item = ''ale'', Price = 0, By = ''bob''\<rparr>, ChildClose 1 None,
         Signal \<lparr>Item = ''ale'', Price = 0, By = ''bob''\<rparr>,
         Signal \<lparr>Item = ''mead'', Price = 0, By = ''bob''\<rparr>, ChildClose 2 None]) = Blocked_Get 3"
  by (simp add: run_simps)

text \<open>
  Claim C2. The run that follows a ContinueAsNew starts at the entry of \<open>WorkflowOrder\<close>: its
  counter is 0 whatever the counter of the run before was, \<open>restartWorkflow\<close> is false, the
  selector is new and no child has been started; nothing of the earlier run but the signals
  the substrate holds reaches it.
\<close>

theorem ContinueAsNew_counter_zero:
  "signalCount (ContinueAsNew s) = 0
   \<and> signalCount (ContinueAsNew (s\<lparr>signalCount := c\<rparr>)) = 0
   \<and> ContinueAsNew (s\<lparr>signalCount := c\<rparr>) = ContinueAsNew s
   \<and> ContinueAsNew s = WorkflowOrder_entry (signalChan s)
   \<and> \<not> restartWorkflow (ContinueAsNew s)
   \<and> \<not> defaultFunc (ContinueAsNew s)
   \<and> receiveCases (ContinueAsNew s) = 0
   \<and> children (ContinueAsNew s) = []"
  by (simp add: ContinueAsNew_def WorkflowOrder_entry_def)

end
